theory Spec2Isabelle
  imports Main
begin

section \<open>The log query engine: \<^verbatim>\<open>providers/gcp/internal/log.py\<close>\<close>

subsection \<open>Python helpers used by the source\<close>

text \<open>
  \<^verbatim>\<open>range(x, stop, step)\<close> for a positive step, as the values the \<^verbatim>\<open>for\<close> loop
  visits. (Python raises for a zero step; the source always passes 50.)
\<close>

function py_range :: "nat \<Rightarrow> nat \<Rightarrow> nat \<Rightarrow> nat list" where
  "py_range x stop step =
     (if x < stop \<and> 0 < step then x # py_range (x + step) stop step else [])"
  by pat_completeness auto
termination
  by (relation "measure (\<lambda>(x, stop, step). stop - x)") auto

declare py_range.simps [simp del]

text \<open>The slice \<^verbatim>\<open>xs[x:y]\<close> for indices \<open>0 \<le> x \<le> y\<close>: it never raises, it truncates.\<close>

definition py_slice :: "'a list \<Rightarrow> nat \<Rightarrow> nat \<Rightarrow> 'a list" where
  "py_slice xs x y = take (y - x) (drop x xs)"

text \<open>
  The decimal text of a non-negative integer, as \<^verbatim>\<open>"{0:d}".format(n)\<close> writes it.
\<close>

definition digit_char :: "nat \<Rightarrow> char" where
  "digit_char d = char_of (48 + d)"

fun format_d :: "nat \<Rightarrow> string" where
  "format_d n = (if n < 10 then [digit_char n] else format_d (n div 10) @ [digit_char (n mod 10)])"

declare format_d.simps [simp del]

subsection \<open>Data\<close>

text \<open>
  A project as scope discovery returns it: a dictionary, of which the source reads the
  keys \<^verbatim>\<open>lifecycleState\<close> and \<^verbatim>\<open>projectId\<close> with \<^verbatim>\<open>dict.get\<close> (so a missing key
  reads as \<^verbatim>\<open>None\<close>).
\<close>

type_synonym project = "(string \<times> string) list"

definition dict_get :: "project \<Rightarrow> string \<Rightarrow> string option" where
  "dict_get p k = map_of p k"

text \<open>\<^verbatim>\<open>'{}'.format(v)\<close> for a value that is a string or \<^verbatim>\<open>None\<close>.\<close>

definition format_value :: "string option \<Rightarrow> string" where
  "format_value v = (case v of None \<Rightarrow> ''None'' | Some s \<Rightarrow> s)"

text \<open>The request body built for one batch (source lines 147 to 151).\<close>

record body =
  resourceNames :: "string list"
  filter_field :: string
  orderBy :: string

text \<open>One page of a response: the key \<^verbatim>\<open>entries\<close> may be absent.\<close>

record 'e page =
  entries :: "'e list option"

datatype error = RuntimeError | ValueError | NameError

text \<open>
  What iterating over the result of \<^verbatim>\<open>common.ExecuteRequest\<close> delivers: the pages it
  hands over, then possibly the error the backing call raised.
\<close>

record 'e responses =
  pages :: "'e page list"
  failure :: "error option"

datatype client = Service string string "string option"

datatype resource = Entries client | Logs client

text \<open>
  The collaborators of \<^verbatim>\<open>common.py\<close>, which the engine calls and does not define, are
  parameters of the model: \<^verbatim>\<open>common.CreateService\<close> yields a client handle,
  \<^verbatim>\<open>common.ExecuteRequest\<close> (the pagination helper) answers a request with pages and
  possibly an error, and the platform answers a scope discovery with the projects visible
  to the credentials or with a failure.
\<close>

datatype discovery = Discovered "project list" | DiscoveryFailed error

record 'e backend =
  CreateService :: "string \<Rightarrow> string \<Rightarrow> string option \<Rightarrow> client"
  Discovery :: "string \<Rightarrow> string option \<Rightarrow> discovery"
  ExecuteRequest :: "resource \<Rightarrow> string \<Rightarrow> body \<Rightarrow> bool \<Rightarrow> 'e responses"

text \<open>
  Modelled from the spec: \<^verbatim>\<open>common.GetProjects\<close> (scope discovery) is not among the
  sources. The spec gives it as an operation that returns a sequence of scopes, and
  treats a discovery that failed like one that found no scope: an empty result, not an
  error.
\<close>

definition GetProjects :: "'e backend \<Rightarrow> string \<Rightarrow> string option \<Rightarrow> project list" where
  "GetProjects env api_version kf =
     (case Discovery env api_version kf of
        Discovered ps \<Rightarrow> ps
      | DiscoveryFailed e \<Rightarrow> [])"

record GoogleCloudLog =
  project_id :: string
  key_file :: "string option"
  gcl_api_client :: "client option"
  search_all :: bool
  projects :: "project list"

definition LOGGING_API_VERSION :: string where
  "LOGGING_API_VERSION = ''v2''"

text \<open>\<^verbatim>\<open>GoogleCloudLog.__init__\<close>\<close>

definition init_GoogleCloudLog :: "string \<Rightarrow> string option \<Rightarrow> bool \<Rightarrow> GoogleCloudLog" where
  "init_GoogleCloudLog pid kf sa =
     \<lparr>project_id = pid, key_file = kf, gcl_api_client = None, search_all = sa, projects = []\<rparr>"

text \<open>
  What the engine does that the outside can see, in the order the program does it: the
  discovery call, a line on the log, the creation of the client, a list request for a
  batch, an entry handed to the consumer, an error raised to the consumer.
\<close>

datatype 'e event =
    Discover
  | Log string
  | Connect
  | Request body
  | Yield 'e
  | Raise error

subsection \<open>Operations\<close>

text \<open>\<^verbatim>\<open>GclApi\<close>: the client is created on first use and kept; creating it empties \<^verbatim>\<open>projects\<close>.\<close>

definition GclApi :: "'e backend \<Rightarrow> GoogleCloudLog \<Rightarrow> client \<times> GoogleCloudLog \<times> 'e event list" where
  "GclApi env self =
     (case gcl_api_client self of
        Some c \<Rightarrow> (c, self, [])
      | None \<Rightarrow>
          (let c = CreateService env ''logging'' LOGGING_API_VERSION (key_file self)
           in (c, self\<lparr>gcl_api_client := Some c, projects := []\<rparr>, [Connect])))"

definition ListProjects :: "'e backend \<Rightarrow> GoogleCloudLog \<Rightarrow> GoogleCloudLog" where
  "ListProjects env self = self\<lparr>projects := GetProjects env LOGGING_API_VERSION (key_file self)\<rparr>"

text \<open>The loop of source lines 135 to 140 over \<^verbatim>\<open>self.projects\<close>.\<close>

fun collect_project_ids :: "project list \<Rightarrow> string list" where
  "collect_project_ids [] = []"
| "collect_project_ids (p # ps) =
     (if \<not> dict_get p ''lifecycleState'' = Some ''ACTIVE'' then collect_project_ids ps
      else (''projects/'' @ format_value (dict_get p ''projectId'')) # collect_project_ids ps)"

text \<open>Source lines 130 to 142: the resolved scope identifiers, the state, the events.\<close>

definition resolve_project_ids ::
  "'e backend \<Rightarrow> GoogleCloudLog \<Rightarrow> string list \<times> GoogleCloudLog \<times> 'e event list" where
  "resolve_project_ids env self =
     (if search_all self then
        (let (self', ev) = (if projects self = [] then (ListProjects env self, [Discover])
                            else (self, []))
         in (collect_project_ids (projects self'), self', ev))
      else ([''projects/'' @ project_id self], self, []))"

text \<open>Source lines 157 to 159: the entries of the pages, page after page.\<close>

definition page_entries :: "'e page \<Rightarrow> 'e list" where
  "page_entries response = (case entries response of None \<Rightarrow> [] | Some es \<Rightarrow> es)"

fun yield_pages :: "'e page list \<Rightarrow> 'e event list" where
  "yield_pages [] = []"
| "yield_pages (response # rest) = map Yield (page_entries response) @ yield_pages rest"

text \<open>
  Source lines 146 to 159: the loop over the batch offsets. An error of the backing
  call ends the loop: nothing in the source catches it.
\<close>

fun run_batches ::
  "'e backend \<Rightarrow> GoogleCloudLog \<Rightarrow> string \<Rightarrow> string list \<Rightarrow> nat list \<Rightarrow>
     'e event list \<times> GoogleCloudLog" where
  "run_batches env self qfilter project_ids [] = ([], self)"
| "run_batches env self qfilter project_ids (x # xs) =
     (let b = \<lparr>resourceNames = py_slice project_ids x (x + 50),
               filter_field = qfilter,
               orderBy = ''timestamp desc''\<rparr>;
          (c, self', ev) = GclApi env self;
          rs = ExecuteRequest env (Entries c) ''list'' b True;
          here = ev @ [Request b] @ yield_pages (pages rs)
      in case failure rs of
           Some e \<Rightarrow> (here @ [Raise e], self')
         | None \<Rightarrow>
             (let (t, self'') = run_batches env self' qfilter project_ids xs
              in (here @ t, self'')))"

text \<open>
  \<^verbatim>\<open>ExecuteQuery\<close>, as the events of its body run to the end, with the final state.
\<close>

definition ExecuteQuery ::
  "'e backend \<Rightarrow> GoogleCloudLog \<Rightarrow> string \<Rightarrow> 'e event list \<times> GoogleCloudLog" where
  "ExecuteQuery env self qfilter =
     (let (project_ids, self', ev) = resolve_project_ids env self;
          total_projects = length project_ids;
          (t, self'') = run_batches env self' qfilter project_ids
                          (py_range 0 (length project_ids) 50)
      in (ev @ [Log (''Projects being queried: '' @ format_d total_projects)] @ t, self''))"

text \<open>
  \<^verbatim>\<open>ExecuteQuery\<close> is a generator: its body runs only when the consumer asks for the next
  element, and stops at the \<^verbatim>\<open>yield\<close> that delivers it. \<open>consume n t\<close> are the events
  that happen when the consumer asks \<open>n\<close> times.
\<close>

fun consume :: "nat \<Rightarrow> 'e event list \<Rightarrow> 'e event list" where
  "consume 0 t = []"
| "consume (Suc n) [] = []"
| "consume (Suc n) (Yield e # t) = Yield e # consume n t"
| "consume (Suc n) (Raise e # t) = [Raise e]"
| "consume (Suc n) (ev # t) = ev # consume (Suc n) t"

text \<open>Projections of a sequence of events.\<close>

fun requests :: "'e event list \<Rightarrow> body list" where
  "requests [] = []"
| "requests (Request b # t) = b # requests t"
| "requests (ev # t) = requests t"

fun yielded :: "'e event list \<Rightarrow> 'e list" where
  "yielded [] = []"
| "yielded (Yield e # t) = e # yielded t"
| "yielded (ev # t) = yielded t"

fun raised :: "'e event list \<Rightarrow> error list" where
  "raised [] = []"
| "raised (Raise e # t) = e # raised t"
| "raised (ev # t) = raised t"

fun logged :: "'e event list \<Rightarrow> string list" where
  "logged [] = []"
| "logged (Log s # t) = s # logged t"
| "logged (ev # t) = logged t"

text \<open>The batches of a list of scope identifiers, as the loop of line 146 cuts them.\<close>

definition batches :: "string list \<Rightarrow> string list list" where
  "batches project_ids =
     map (\<lambda>x. py_slice project_ids x (x + 50)) (py_range 0 (length project_ids) 50)"

subsection \<open>Notions used to state the properties\<close>

text \<open>
  The client the engine talks through: the one it holds, or the one it creates on first
  use. The backing call for a request body, and that body as lines 147 to 151 write it.
\<close>

definition the_client :: "'e backend \<Rightarrow> GoogleCloudLog \<Rightarrow> client" where
  "the_client env self =
     (case gcl_api_client self of
        Some c \<Rightarrow> c
      | None \<Rightarrow> CreateService env ''logging'' LOGGING_API_VERSION (key_file self))"

definition api :: "'e backend \<Rightarrow> GoogleCloudLog \<Rightarrow> body \<Rightarrow> 'e responses" where
  "api env self b = ExecuteRequest env (Entries (the_client env self)) ''list'' b True"

definition mk_body :: "string \<Rightarrow> string list \<Rightarrow> body" where
  "mk_body qfilter names =
     \<lparr>resourceNames = names, filter_field = qfilter, orderBy = ''timestamp desc''\<rparr>"

text \<open>The scope identifiers a query resolves, and the scopes it reads them from.\<close>

definition resolved :: "'e backend \<Rightarrow> GoogleCloudLog \<Rightarrow> string list" where
  "resolved env self = fst (resolve_project_ids env self)"

text \<open>The request bodies of a query, batch after batch.\<close>

definition bodies :: "'e backend \<Rightarrow> GoogleCloudLog \<Rightarrow> string \<Rightarrow> body list" where
  "bodies env self qfilter = map (mk_body qfilter) (batches (resolved env self))"

definition scopes :: "'e backend \<Rightarrow> GoogleCloudLog \<Rightarrow> project list" where
  "scopes env self =
     (if projects self = [] then GetProjects env LOGGING_API_VERSION (key_file self)
      else projects self)"

definition is_active :: "project \<Rightarrow> bool" where
  "is_active p = (dict_get p ''lifecycleState'' = Some ''ACTIVE'')"

definition scope_name :: "project \<Rightarrow> string" where
  "scope_name p = ''projects/'' @ format_value (dict_get p ''projectId'')"

text \<open>
  Of a list of request bodies, those up to the first one the backing call fails on, that
  one included; and the error of that call.
\<close>

fun served :: "(body \<Rightarrow> 'e responses) \<Rightarrow> body list \<Rightarrow> body list" where
  "served f [] = []"
| "served f (b # bs) = b # (if failure (f b) = None then served f bs else [])"

fun first_failure :: "(body \<Rightarrow> 'e responses) \<Rightarrow> body list \<Rightarrow> error option" where
  "first_failure f [] = None"
| "first_failure f (b # bs) =
     (case failure (f b) of Some e \<Rightarrow> Some e | None \<Rightarrow> first_failure f bs)"

definition response_entries :: "'e responses \<Rightarrow> 'e list" where
  "response_entries rs = concat (map page_entries (pages rs))"

text \<open>
  The request bodies a consumer needs who asks for \<open>k\<close> elements: those of the leading
  batches, up to the one whose response holds the \<open>k\<close>-th entry or fails.
\<close>

fun needed :: "nat \<Rightarrow> (body \<Rightarrow> 'e responses) \<Rightarrow> body list \<Rightarrow> body list" where
  "needed 0 f bs = []"
| "needed (Suc k) f [] = []"
| "needed (Suc k) f (b # bs) =
     b # (if Suc k \<le> length (response_entries (f b)) \<or> failure (f b) \<noteq> None then []
          else needed (Suc k - length (response_entries (f b))) f bs)"

text \<open>What the consumer of the sequence sees: the elements and the error.\<close>

fun observed :: "'e event list \<Rightarrow> 'e event list" where
  "observed [] = []"
| "observed (Yield e # t) = Yield e # observed t"
| "observed (Raise e # t) = Raise e # observed t"
| "observed (ev # t) = observed t"

section \<open>The command line: \<^verbatim>\<open>QueryLogs\<close> of \<^verbatim>\<open>tools/gcp_cli.py\<close>\<close>

subsection \<open>\<^verbatim>\<open>datetime.strptime\<close> with the format \<^verbatim>\<open>%Y-%m-%dT%H:%M:%SZ\<close>\<close>

text \<open>
  A text is held as the bytes of its UTF-8 encoding, which keeps what the engine and the
  command do with a text: they compare texts, join them and test them for emptiness.
  \<^verbatim>\<open>strptime\<close> alone looks at the characters; \<open>utf8_decode\<close> gives them, as code
  points. (A byte that opens a sequence the text does not complete, which no encoding of
  a text holds, is read as a character of its own.)
\<close>

fun utf8_decode :: "string \<Rightarrow> nat list" where
  "utf8_decode [] = []"
| "utf8_decode (a # r) =
     (let x = (of_char a :: nat)
      in if x < 128 then x # utf8_decode r
         else if x < 224 then
           (case r of
              b # r1 \<Rightarrow> ((x - 192) * 64 + (of_char b - 128)) # utf8_decode r1
            | [] \<Rightarrow> [x])
         else if x < 240 then
           (case r of
              b # c # r2 \<Rightarrow>
                ((x - 224) * 4096 + (of_char b - 128) * 64 + (of_char c - 128)) # utf8_decode r2
            | r1 \<Rightarrow> x # utf8_decode r1)
         else
           (case r of
              b # c # d # r3 \<Rightarrow>
                ((x - 240) * 262144 + (of_char b - 128) * 4096 + (of_char c - 128) * 64
                 + (of_char d - 128)) # utf8_decode r3
            | r1 \<Rightarrow> x # utf8_decode r1))"

text \<open>
  The decimal digits are those of Unicode: in a regular expression on texts \<^verbatim>\<open>\d\<close>
  takes a decimal digit of any script, and \<^verbatim>\<open>int\<close> reads it. Below code point 128 they
  are \<^verbatim>\<open>0\<close> to \<^verbatim>\<open>9\<close>. Beyond, the Unicode database of the interpreter gives them; it
  is a parameter, the list \<open>zeros\<close> of the code points of the digits zero: the ten
  digits of a script are encoded in a row, from zero up.
\<close>

definition decimal :: "nat list \<Rightarrow> nat \<Rightarrow> nat option" where
  "decimal zeros c =
     (if c < 128 then (if 48 \<le> c \<and> c \<le> 57 then Some (c - 48) else None)
      else (case filter (\<lambda>z. z \<le> c \<and> c < z + 10) zeros of
              [] \<Rightarrow> None
            | z # zs \<Rightarrow> Some (c - z)))"

definition is_digit :: "nat list \<Rightarrow> nat \<Rightarrow> bool" where
  "is_digit zeros c = (decimal zeros c \<noteq> None)"

text \<open>
  The standard library turns the format into a regular expression, compiled to ignore
  case, with one group per directive:
  \<^verbatim>\<open>%Y\<close> is \<^verbatim>\<open>\d\d\d\d\<close>, \<^verbatim>\<open>%m\<close> is \<^verbatim>\<open>1[0-2]|0[1-9]|[1-9]\<close>,
  \<^verbatim>\<open>%d\<close> is \<^verbatim>\<open>3[0-1]|[1-2]\d|0[1-9]|[1-9]| [1-9]\<close>, \<^verbatim>\<open>%H\<close> is \<^verbatim>\<open>2[0-3]|[0-1]\d|\d\<close>,
  \<^verbatim>\<open>%M\<close> is \<^verbatim>\<open>[0-5]\d|\d\<close> and \<^verbatim>\<open>%S\<close> is \<^verbatim>\<open>6[0-1]|[0-5]\d|\d\<close>.
  It matches the expression at the start of the text, refuses text that remains after
  the match, reads the groups with \<^verbatim>\<open>int\<close>, and builds the date and the time, which
  refuses a year 0, a day the month does not have and a second above 59. Every refusal is
  a \<^verbatim>\<open>ValueError\<close>.

  A matcher gives the ways it can match at the head of a text, first choice first: the
  text of the group and the text that remains. A class such as \<^verbatim>\<open>[0-2]\<close> takes the
  characters of its range only.
\<close>

definition in_range :: "char \<Rightarrow> char \<Rightarrow> nat \<Rightarrow> bool" where
  "in_range lo hi c = (of_char lo \<le> c \<and> c \<le> of_char hi)"

definition is_char :: "char \<Rightarrow> nat \<Rightarrow> bool" where
  "is_char l c = (c = of_char l)"

fun re1 :: "(nat \<Rightarrow> bool) \<Rightarrow> nat list \<Rightarrow> (nat list \<times> nat list) list" where
  "re1 P (a # r) = (if P a then [([a], r)] else [])"
| "re1 P [] = []"

fun re2 :: "(nat \<Rightarrow> bool) \<Rightarrow> (nat \<Rightarrow> bool) \<Rightarrow> nat list \<Rightarrow> (nat list \<times> nat list) list" where
  "re2 P Q (a # b # r) = (if P a \<and> Q b then [([a, b], r)] else [])"
| "re2 P Q r = []"

fun re_Y :: "nat list \<Rightarrow> nat list \<Rightarrow> (nat list \<times> nat list) list" where
  "re_Y zeros (a # b # c # d # r) =
     (if is_digit zeros a \<and> is_digit zeros b \<and> is_digit zeros c \<and> is_digit zeros d
      then [([a, b, c, d], r)] else [])"
| "re_Y zeros r = []"

definition re_m :: "nat list \<Rightarrow> (nat list \<times> nat list) list" where
  "re_m s = re2 (is_char (CHR ''1'')) (in_range (CHR ''0'') (CHR ''2'')) s
          @ re2 (is_char (CHR ''0'')) (in_range (CHR ''1'') (CHR ''9'')) s
          @ re1 (in_range (CHR ''1'') (CHR ''9'')) s"

definition re_d :: "nat list \<Rightarrow> nat list \<Rightarrow> (nat list \<times> nat list) list" where
  "re_d zeros s = re2 (is_char (CHR ''3'')) (in_range (CHR ''0'') (CHR ''1'')) s
          @ re2 (in_range (CHR ''1'') (CHR ''2'')) (is_digit zeros) s
          @ re2 (is_char (CHR ''0'')) (in_range (CHR ''1'') (CHR ''9'')) s
          @ re1 (in_range (CHR ''1'') (CHR ''9'')) s
          @ re2 (is_char (CHR '' '')) (in_range (CHR ''1'') (CHR ''9'')) s"

definition re_H :: "nat list \<Rightarrow> nat list \<Rightarrow> (nat list \<times> nat list) list" where
  "re_H zeros s = re2 (is_char (CHR ''2'')) (in_range (CHR ''0'') (CHR ''3'')) s
          @ re2 (in_range (CHR ''0'') (CHR ''1'')) (is_digit zeros) s
          @ re1 (is_digit zeros) s"

definition re_M :: "nat list \<Rightarrow> nat list \<Rightarrow> (nat list \<times> nat list) list" where
  "re_M zeros s = re2 (in_range (CHR ''0'') (CHR ''5'')) (is_digit zeros) s
          @ re1 (is_digit zeros) s"

definition re_S :: "nat list \<Rightarrow> nat list \<Rightarrow> (nat list \<times> nat list) list" where
  "re_S zeros s = re2 (is_char (CHR ''6'')) (in_range (CHR ''0'') (CHR ''1'')) s
          @ re2 (in_range (CHR ''0'') (CHR ''5'')) (is_digit zeros) s
          @ re1 (is_digit zeros) s"

text \<open>
  A literal character of the format. The expression ignores case: a character matches
  the literal when both have the same lower case. The literals are \<^verbatim>\<open>-\<close>, \<^verbatim>\<open>:\<close>,
  \<^verbatim>\<open>T\<close> and \<^verbatim>\<open>Z\<close>, and no character beyond code point 127 has the lower case of one
  of them, so that the lower case of the letters \<^verbatim>\<open>A\<close> to \<^verbatim>\<open>Z\<close> decides.
\<close>

definition sre_lower :: "nat \<Rightarrow> nat" where
  "sre_lower c = (if 65 \<le> c \<and> c \<le> 90 then c + 32 else c)"

fun re_lit :: "char \<Rightarrow> nat list \<Rightarrow> nat list list" where
  "re_lit l (a # r) = (if sre_lower a = sre_lower (of_char l) then [r] else [])"
| "re_lit l [] = []"

definition format_regex_match ::
  "nat list \<Rightarrow> nat list \<Rightarrow>
     ((nat list \<times> nat list \<times> nat list \<times> nat list \<times> nat list \<times> nat list) \<times> nat list) list" where
  "format_regex_match zeros s =
     [((Y, m, d, H, M, S), r12).
        (Y, r1) \<leftarrow> re_Y zeros s, r2 \<leftarrow> re_lit (CHR ''-'') r1,
        (m, r3) \<leftarrow> re_m r2, r4 \<leftarrow> re_lit (CHR ''-'') r3,
        (d, r5) \<leftarrow> re_d zeros r4, r6 \<leftarrow> re_lit (CHR ''T'') r5,
        (H, r7) \<leftarrow> re_H zeros r6, r8 \<leftarrow> re_lit (CHR '':'') r7,
        (M, r9) \<leftarrow> re_M zeros r8, r10 \<leftarrow> re_lit (CHR '':'') r9,
        (S, r11) \<leftarrow> re_S zeros r10, r12 \<leftarrow> re_lit (CHR ''Z'') r11]"

text \<open>\<^verbatim>\<open>int\<close> of a group: decimal digits of any script, after leading blanks.\<close>

definition digit_value :: "nat list \<Rightarrow> nat \<Rightarrow> nat" where
  "digit_value zeros c = (case decimal zeros c of None \<Rightarrow> 0 | Some v \<Rightarrow> v)"

definition py_int :: "nat list \<Rightarrow> nat list \<Rightarrow> nat" where
  "py_int zeros g =
     foldl (\<lambda>n c. 10 * n + digit_value zeros c) 0 (dropWhile (\<lambda>c. c = of_char (CHR '' '')) g)"

definition is_leap :: "nat \<Rightarrow> bool" where
  "is_leap y = (y mod 4 = 0 \<and> (y mod 100 \<noteq> 0 \<or> y mod 400 = 0))"

definition days_in_month :: "nat \<Rightarrow> nat \<Rightarrow> nat" where
  "days_in_month y m =
     (if m = 2 then (if is_leap y then 29 else 28)
      else if m = 4 \<or> m = 6 \<or> m = 9 \<or> m = 11 then 30 else 31)"

datatype strptime_error = DoesNotMatch | UnconvertedData "nat list" | OutOfRange

type_synonym datetime = "nat \<times> nat \<times> nat \<times> nat \<times> nat \<times> nat"

definition strptime :: "nat list \<Rightarrow> string \<Rightarrow> strptime_error + datetime" where
  "strptime zeros data_string =
     (case format_regex_match zeros (utf8_decode data_string) of
        [] \<Rightarrow> Inl DoesNotMatch
      | ((Y, m, d, H, M, S), rest) # others \<Rightarrow>
          if rest \<noteq> [] then Inl (UnconvertedData rest)
          else
            (let year = py_int zeros Y; month = py_int zeros m; day = py_int zeros d;
                 hour = py_int zeros H; minute = py_int zeros M; second = py_int zeros S
             in if year < 1 \<or> days_in_month year month < day then Inl OutOfRange
                else if 59 < second then Inl OutOfRange
                else Inr (year, month, day, hour, minute, second)))"

subsection \<open>\<^verbatim>\<open>QueryLogs\<close>\<close>

text \<open>
  The arguments \<^verbatim>\<open>QueryLogs\<close> reads from the parsed command line. An option that was
  not given is \<^verbatim>\<open>None\<close>; the source tests the options for truth, so an empty text
  counts like an option that was not given.
\<close>

record args =
  arg_project :: string
  arg_key_file :: "string option"
  arg_search_all :: bool
  arg_start :: "string option"
  arg_end :: "string option"
  arg_filter :: "string option"

definition truthy :: "string option \<Rightarrow> bool" where
  "truthy v = (case v of None \<Rightarrow> False | Some s \<Rightarrow> s \<noteq> [])"

definition text_of :: "string option \<Rightarrow> string" where
  "text_of v = (case v of None \<Rightarrow> [] | Some s \<Rightarrow> s)"

text \<open>Source lines 157 to 163: the two bounds are parsed, the start first.\<close>

definition validate :: "nat list \<Rightarrow> args \<Rightarrow> strptime_error + unit" where
  "validate zeros a =
     (case (if truthy (arg_start a) then strptime zeros (text_of (arg_start a))
            else Inr (0, 0, 0, 0, 0, 0)) of
        Inl err \<Rightarrow> Inl err
      | Inr t1 \<Rightarrow>
          (case (if truthy (arg_end a) then strptime zeros (text_of (arg_end a))
                 else Inr (0, 0, 0, 0, 0, 0)) of
             Inl err \<Rightarrow> Inl err
           | Inr t2 \<Rightarrow> Inr ()))"

text \<open>Source lines 165 to 182: the filter, piece after piece.\<close>

definition dq :: char where
  "dq = CHR 0x22"

definition assemble_qfilter :: "args \<Rightarrow> string" where
  "assemble_qfilter a =
     (let qfilter = [];
          qfilter = (if truthy (arg_start a)
                     then qfilter @ ''timestamp>='' @ [dq] @ text_of (arg_start a) @ [dq] @ '' ''
                     else qfilter);
          qfilter = (if truthy (arg_start a) \<and> truthy (arg_end a)
                     then qfilter @ ''AND '' else qfilter);
          qfilter = (if truthy (arg_end a)
                     then qfilter @ ''timestamp<='' @ [dq] @ text_of (arg_end a) @ [dq] @ '' ''
                     else qfilter)
      in if truthy (arg_filter a) \<and> (truthy (arg_start a) \<or> truthy (arg_end a))
         then (qfilter @ ''AND '') @ text_of (arg_filter a)
         else if truthy (arg_filter a) then qfilter @ text_of (arg_filter a)
         else qfilter)"

text \<open>
  \<^verbatim>\<open>'{0:s}'.format(v)\<close>: the presentation type \<^verbatim>\<open>s\<close> is for strings, and Python raises
  \<^verbatim>\<open>ValueError\<close> for a float. \<^verbatim>\<open>datetime.utcnow().timestamp()\<close> is a float, here a
  mantissa and an exponent.
\<close>

datatype pyval = PyStr string | PyFloat int int

definition format_s :: "pyval \<Rightarrow> error + string" where
  "format_s v = (case v of PyStr s \<Rightarrow> Inr s | PyFloat m e \<Rightarrow> Inl ValueError)"

datatype 'e cli_event = Info string | Engine "'e event" | Opened string | Dumped string 'e

datatype outcome = Returned | SysExit strptime_error | Raised error

text \<open>
  Source lines 190 to 192: the loop over the generator. Its body opens the file to append
  and calls \<^verbatim>\<open>json.dump(line, output_file)\<close>; no name \<^verbatim>\<open>line\<close> is bound in
  \<^verbatim>\<open>QueryLogs\<close> or in the module (the loop variable is \<^verbatim>\<open>result\<close>), so the first
  element ends the loop with \<^verbatim>\<open>NameError\<close> and nothing is written.
\<close>

fun persist :: "string \<Rightarrow> 'e event list \<Rightarrow> error option \<times> 'e cli_event list" where
  "persist filename [] = (None, [])"
| "persist filename (Yield result # t) = (Some NameError, [Engine (Yield result), Opened filename])"
| "persist filename (Raise e # t) = (Some e, [Engine (Raise e)])"
| "persist filename (ev # t) = (let (r, evs) = persist filename t in (r, Engine ev # evs))"

definition QueryLogs ::
  "nat list \<Rightarrow> 'e backend \<Rightarrow> args \<Rightarrow> int \<times> int \<Rightarrow> outcome \<times> 'e cli_event list" where
  "QueryLogs zeros env a now =
     (let logs = init_GoogleCloudLog (arg_project a) (arg_key_file a) (arg_search_all a);
          ev0 = (if arg_search_all a then [Info ''Querying logs of all available projects''] else [])
      in case validate zeros a of
           Inl err \<Rightarrow> (SysExit err, ev0)
         | Inr ok \<Rightarrow>
             (let qfilter = assemble_qfilter a
              in case format_s (PyFloat (fst now) (snd now)) of
                   Inl err \<Rightarrow> (Raised err, ev0)
                 | Inr ts \<Rightarrow>
                     (let filename = ''gcp_log_query-'' @ ts @ ''.json'';
                          (r, evs) = persist filename (fst (ExecuteQuery env logs qfilter))
                      in case r of
                           Some e \<Rightarrow> (Raised e, ev0 @ evs)
                         | None \<Rightarrow> (Returned, ev0 @ evs @ [Info (''Saved logs to: '' @ filename)]))))"

text \<open>The calls to the platform among the events of the command, and what it writes.\<close>

fun network_calls :: "'e cli_event list \<Rightarrow> 'e event list" where
  "network_calls [] = []"
| "network_calls (Engine Discover # t) = Discover # network_calls t"
| "network_calls (Engine Connect # t) = Connect # network_calls t"
| "network_calls (Engine (Request b) # t) = Request b # network_calls t"
| "network_calls (ev # t) = network_calls t"

fun appended :: "'e cli_event list \<Rightarrow> (string \<times> 'e) list" where
  "appended [] = []"
| "appended (Dumped f e # t) = (f, e) # appended t"
| "appended (ev # t) = appended t"





section \<open>Examples\<close>

definition ex_active :: project where
  "ex_active = [(''projectId'', ''p''), (''lifecycleState'', ''ACTIVE'')]"

definition ex_deleted :: project where
  "ex_deleted = [(''projectId'', ''q''), (''lifecycleState'', ''DELETE_REQUESTED'')]"

definition ex_log :: GoogleCloudLog where
  "ex_log = init_GoogleCloudLog ''p0'' None True"

text \<open>The engine for the project \<^verbatim>\<open>p0\<close> alone.\<close>

definition ex_single :: GoogleCloudLog where
  "ex_single = init_GoogleCloudLog ''p0'' None False"

text \<open>
  Fifty-one active projects and a deleted one. The first batch is answered by two pages of
  three and two entries, the second batch by an error.
\<close>

definition ex_failing :: "nat backend" where
  "ex_failing =
     \<lparr>CreateService = Service,
      Discovery = (\<lambda>v k. Discovered (replicate 51 ex_active @ [ex_deleted])),
      ExecuteRequest = (\<lambda>r m b t.
        if length (resourceNames b) = 50
        then \<lparr>pages = [\<lparr>entries = Some [1, 2, 3]\<rparr>, \<lparr>entries = Some [4, 5]\<rparr>], failure = None\<rparr>
        else \<lparr>pages = [], failure = Some RuntimeError\<rparr>)\<rparr>"

text \<open>The same projects; the first batch matches nothing, the second one entry.\<close>

definition ex_quiet :: "nat backend" where
  "ex_quiet =
     \<lparr>CreateService = Service,
      Discovery = (\<lambda>v k. Discovered (replicate 51 ex_active @ [ex_deleted])),
      ExecuteRequest = (\<lambda>r m b t.
        if length (resourceNames b) = 50
        then \<lparr>pages = [\<lparr>entries = None\<rparr>], failure = None\<rparr>
        else \<lparr>pages = [\<lparr>entries = Some [7]\<rparr>], failure = None\<rparr>)\<rparr>"

text \<open>The same projects; every batch is answered by a page of two entries and a page without the key.\<close>

definition ex_plain :: "nat backend" where
  "ex_plain =
     \<lparr>CreateService = Service,
      Discovery = (\<lambda>v k. Discovered (replicate 51 ex_active @ [ex_deleted])),
      ExecuteRequest = (\<lambda>r m b t.
        \<lparr>pages = [\<lparr>entries = Some [length (resourceNames b), 8]\<rparr>, \<lparr>entries = None\<rparr>], failure = None\<rparr>)\<rparr>"

text \<open>A discovery that fails.\<close>

definition ex_undiscovered :: "nat backend" where
  "ex_undiscovered =
     \<lparr>CreateService = Service,
      Discovery = (\<lambda>v k. DiscoveryFailed RuntimeError),
      ExecuteRequest = (\<lambda>r m b t. \<lparr>pages = [\<lparr>entries = Some [1]\<rparr>], failure = None\<rparr>)\<rparr>"

definition ex_args :: args where
  "ex_args =
     \<lparr>arg_project = ''p0'', arg_key_file = None, arg_search_all = False,
      arg_start = Some ''2021-01-01T00:00:00Z'', arg_end = Some ''2021-01-02T00:00:00Z'',
      arg_filter = Some ''severity=ERROR''\<rparr>"



text \<open>
  A database with the Arabic-Indic digits (from U+0660) and the fullwidth digits (from
  U+FF10), and a start whose year 2021 is written in fullwidth digits (U+FF12, U+FF10,
  U+FF12, U+FF11, three bytes each).
\<close>

definition ex_zeros :: "nat list" where
  "ex_zeros = [1632, 65296]"


section \<open>Properties of the query engine\<close>

subsection \<open>Batches\<close>



lemma py_range_concat:
  "concat (map (\<lambda>x. py_slice xs x (x + 50)) (py_range x (length xs) 50)) = drop x xs"
proof (induction x "length xs" "50::nat" rule: py_range.induct)
  case (1 x)
  show ?case
  proof (cases "x < length xs")
    case True
    have "take 50 (drop x xs) @ drop (x + 50) xs = drop x xs"
      by (metis add.commute append_take_drop_id drop_drop)
    with True 1 show ?thesis
      by (subst py_range.simps) (simp add: py_slice_def)
  next
    case False
    then show ?thesis by (subst py_range.simps) simp
  qed
qed

lemma py_range_length: "length (py_range x n 50) = (n - x + 49) div 50"
proof (induction x n "50::nat" rule: py_range.induct)
  case (1 x n)
  show ?case
  proof (cases "x < n")
    case True
    with 1 have "length (py_range x n 50) = Suc ((n - (x + 50) + 49) div 50)"
      by (subst py_range.simps) simp
    also have "\<dots> = (n - x + 49) div 50"
    proof (cases "x + 50 \<le> n")
      case True
      then have "n - x + 49 = (n - (x + 50) + 49) + 50" by simp
      then show ?thesis by (simp only: div_add_self2)
    next
      case False
      with \<open>x < n\<close> have "n - (x + 50) = 0" and "50 \<le> n - x + 49" and "n - x + 49 < 100"
        by simp_all
      then have "(n - x + 49) div 50 = 1" and "(n - (x + 50) + 49) div 50 = 0"
        by simp_all
      then show ?thesis by simp
    qed
    finally show ?thesis .
  next
    case False
    then show ?thesis by (subst py_range.simps) simp
  qed
qed

lemma py_range_bound: "y \<in> set (py_range x n 50) \<Longrightarrow> y < n"
proof (induction x n "50::nat" rule: py_range.induct)
  case (1 x n)
  from "1.prems" show ?case
    by (subst (asm) py_range.simps) (auto split: if_splits dest: "1.hyps"[rotated -1])
qed

lemma py_range_nth: "k < length (py_range x n 50) \<Longrightarrow> py_range x n 50 ! k = x + 50 * k"
proof (induction x n "50::nat" arbitrary: k rule: py_range.induct)
  case (1 x n)
  show ?case
  proof (cases "x < n")
    case True
    then have eq: "py_range x n 50 = x # py_range (x + 50) n 50"
      by (subst py_range.simps) simp
    show ?thesis
    proof (cases k)
      case 0 with eq show ?thesis by simp
    next
      case (Suc j)
      with "1.prems" eq have "j < length (py_range (x + 50) n 50)" by simp
      with True have "py_range (x + 50) n 50 ! j = x + 50 + 50 * j"
        using "1.hyps" by simp
      with eq Suc show ?thesis by simp
    qed
  next
    case False
    with "1.prems" show ?thesis by (subst (asm) py_range.simps) simp
  qed
qed

lemma requests_append [simp]: "requests (s @ t) = requests s @ requests t"
  by (induction s rule: requests.induct) simp_all

lemma yielded_append [simp]: "yielded (s @ t) = yielded s @ yielded t"
  by (induction s rule: yielded.induct) simp_all

lemma raised_append [simp]: "raised (s @ t) = raised s @ raised t"
  by (induction s rule: raised.induct) simp_all

lemma logged_append [simp]: "logged (s @ t) = logged s @ logged t"
  by (induction s rule: logged.induct) simp_all

lemma map_Yield_proj [simp]:
  "requests (map Yield es) = []" "raised (map Yield es) = []" "logged (map Yield es) = []"
  "yielded (map Yield es) = es"
  by (induction es) simp_all

lemma yield_pages_proj [simp]:
  "requests (yield_pages ps) = []" "raised (yield_pages ps) = []" "logged (yield_pages ps) = []"
  "yielded (yield_pages ps) = concat (map page_entries ps)"
  by (induction ps) simp_all

lemma GclApi_client:
  assumes "GclApi env self = (c, self', ev)"
  shows "c = the_client env self" and "the_client env self' = the_client env self"
    and "ev = [] \<or> ev = [Connect]"
  using assms by (auto simp: GclApi_def the_client_def Let_def split: option.splits)

lemma GclApi_proj:
  assumes "GclApi env self = (c, self', ev)"
  shows "requests ev = []" and "yielded ev = []" and "raised ev = []" and "logged ev = []"
  using GclApi_client(3)[OF assms] by auto

lemma run_batches_Cons:
  assumes "GclApi env self = (c, self', ev)"
  shows "fst (run_batches env self qfilter ids (x # xs)) =
           ev @ [Request (mk_body qfilter (py_slice ids x (x + 50)))]
           @ yield_pages (pages (api env self (mk_body qfilter (py_slice ids x (x + 50)))))
           @ (case failure (api env self (mk_body qfilter (py_slice ids x (x + 50)))) of
                Some e \<Rightarrow> [Raise e]
              | None \<Rightarrow> fst (run_batches env self' qfilter ids xs))"
  using assms GclApi_client(1)[OF assms]
  by (simp add: Let_def api_def mk_body_def split: option.splits prod.splits)

lemma api_GclApi:
  assumes "GclApi env self = (c, self', ev)"
  shows "api env self' = api env self"
  by (rule ext) (simp add: api_def GclApi_client(2)[OF assms])

lemma run_batches_requests:
  "requests (fst (run_batches env self qfilter ids xs)) =
     served (api env self) (map (\<lambda>x. mk_body qfilter (py_slice ids x (x + 50))) xs)"
proof (induction xs arbitrary: self)
  case Nil
  show ?case by simp
next
  case (Cons x xs)
  obtain c self' ev where g: "GclApi env self = (c, self', ev)"
    by (cases "GclApi env self") auto
  show ?case
    unfolding run_batches_Cons[OF g]
    using Cons.IH[of self'] GclApi_proj[OF g]
    by (simp add: api_GclApi[OF g] split: option.splits)
qed



lemma run_batches_raised:
  "raised (fst (run_batches env self qfilter ids xs)) =
     (case first_failure (api env self) (map (\<lambda>x. mk_body qfilter (py_slice ids x (x + 50))) xs) of
        None \<Rightarrow> [] | Some e \<Rightarrow> [e])"
proof (induction xs arbitrary: self)
  case Nil
  show ?case by simp
next
  case (Cons x xs)
  obtain c self' ev where g: "GclApi env self = (c, self', ev)"
    by (cases "GclApi env self") auto
  show ?case
    unfolding run_batches_Cons[OF g]
    using Cons.IH[of self'] GclApi_proj[OF g]
    by (simp add: api_GclApi[OF g] split: option.splits)
qed

lemma run_batches_Raise_last:
  "Raise e \<in> set (fst (run_batches env self qfilter ids xs)) \<Longrightarrow>
     \<exists>t. fst (run_batches env self qfilter ids xs) = t @ [Raise e] \<and> raised t = []"
proof (induction xs arbitrary: self)
  case Nil
  then show ?case by simp
next
  case (Cons x xs)
  obtain c self' ev where g: "GclApi env self = (c, self', ev)"
    by (cases "GclApi env self") auto
  let ?b = "mk_body qfilter (py_slice ids x (x + 50))"
  let ?here = "ev @ [Request ?b] @ yield_pages (pages (api env self ?b))"
  have nr: "raised ?here = []" using GclApi_proj[OF g] by simp
  have notin: "Raise e \<notin> set ?here"
    using GclApi_client(3)[OF g] by (auto simp: in_set_conv_decomp dest!: arg_cong[where f=raised])
  show ?case
  proof (cases "failure (api env self ?b)")
    case None
    with Cons.prems notin have "Raise e \<in> set (fst (run_batches env self' qfilter ids xs))"
      unfolding run_batches_Cons[OF g] by auto
    from Cons.IH[OF this] obtain t where
      t: "fst (run_batches env self' qfilter ids xs) = t @ [Raise e]" "raised t = []" by blast
    have "fst (run_batches env self qfilter ids (x # xs)) = (?here @ t) @ [Raise e]"
      unfolding run_batches_Cons[OF g] using None t by simp
    moreover have "raised (?here @ t) = []" using nr t by simp
    ultimately show ?thesis by blast
  next
    case (Some e')
    with Cons.prems notin have "e' = e"
      unfolding run_batches_Cons[OF g] by auto
    with Some have "fst (run_batches env self qfilter ids (x # xs)) = ?here @ [Raise e]"
      unfolding run_batches_Cons[OF g] by simp
    with nr show ?thesis by blast
  qed
qed


lemma observed_append [simp]: "observed (s @ t) = observed s @ observed t"
  by (induction s rule: observed.induct) simp_all

lemma observed_map_Yield: "observed (map Yield es) = map Yield es"
  by (induction es) simp_all

lemma yield_pages_eq: "yield_pages ps = map Yield (concat (map page_entries ps))"
  by (induction ps) simp_all

lemma run_batches_observed:
  "observed (fst (run_batches env self qfilter ids xs)) =
     map Yield (concat (map (\<lambda>b. response_entries (api env self b))
       (served (api env self) (map (\<lambda>x. mk_body qfilter (py_slice ids x (x + 50))) xs))))
     @ (case first_failure (api env self) (map (\<lambda>x. mk_body qfilter (py_slice ids x (x + 50))) xs) of
          None \<Rightarrow> [] | Some e \<Rightarrow> [Raise e])"
proof (induction xs arbitrary: self)
  case Nil
  show ?case by simp
next
  case (Cons x xs)
  obtain c self' ev where g: "GclApi env self = (c, self', ev)"
    by (cases "GclApi env self") auto
  have ob: "observed ev = []" using GclApi_client(3)[OF g] by auto
  have yp: "\<And>ps. observed (yield_pages ps) = map Yield (concat (map page_entries ps))"
    by (simp add: yield_pages_eq observed_map_Yield)
  show ?case
    unfolding run_batches_Cons[OF g]
    using Cons.IH[of self'] ob
    by (simp add: api_GclApi[OF g] response_entries_def yp split: option.splits)
qed

lemma resolve_state:
  "fst (snd (resolve_project_ids env self)) =
     (if search_all self \<and> projects self = [] then ListProjects env self else self)"
  by (simp add: resolve_project_ids_def Let_def)

lemma resolve_client:
  "the_client env (fst (snd (resolve_project_ids env self))) = the_client env self"
  by (simp add: resolve_state ListProjects_def the_client_def split: option.splits)

lemma api_resolve: "api env (fst (snd (resolve_project_ids env self))) = api env self"
  by (rule ext) (simp add: api_def resolve_client)

lemma resolve_events:
  "snd (snd (resolve_project_ids env self)) = (if search_all self \<and> projects self = [] then [Discover] else [])"
  by (simp add: resolve_project_ids_def Let_def)

lemma ExecuteQuery_trace:
  "fst (ExecuteQuery env self qfilter) =
     snd (snd (resolve_project_ids env self))
     @ [Log (''Projects being queried: '' @ format_d (length (resolved env self)))]
     @ fst (run_batches env (fst (snd (resolve_project_ids env self))) qfilter (resolved env self)
              (py_range 0 (length (resolved env self)) 50))"
  by (simp add: ExecuteQuery_def resolved_def Let_def split: prod.splits)

lemma bodies_eq:
  "map (\<lambda>x. mk_body qfilter (py_slice (resolved env self) x (x + 50)))
     (py_range 0 (length (resolved env self)) 50) = bodies env self qfilter"
  by (simp add: bodies_def batches_def)

lemma ExecuteQuery_requests:
  "requests (fst (ExecuteQuery env self qfilter)) = served (api env self) (bodies env self qfilter)"
  by (simp add: ExecuteQuery_trace resolve_events run_batches_requests api_resolve bodies_eq)


lemma ExecuteQuery_raised:
  "raised (fst (ExecuteQuery env self qfilter)) =
     (case first_failure (api env self) (bodies env self qfilter) of None \<Rightarrow> [] | Some e \<Rightarrow> [e])"
  by (simp add: ExecuteQuery_trace resolve_events run_batches_raised api_resolve bodies_eq)

lemma ExecuteQuery_observed:
  "observed (fst (ExecuteQuery env self qfilter)) =
     map Yield (concat (map (\<lambda>b. response_entries (api env self b))
                  (served (api env self) (bodies env self qfilter))))
     @ (case first_failure (api env self) (bodies env self qfilter) of
          None \<Rightarrow> [] | Some e \<Rightarrow> [Raise e])"
  by (simp add: ExecuteQuery_trace resolve_events run_batches_observed api_resolve bodies_eq)

lemma run_batches_logged: "logged (fst (run_batches env self qfilter ids xs)) = []"
proof (induction xs arbitrary: self)
  case Nil
  show ?case by simp
next
  case (Cons x xs)
  obtain c self' ev where g: "GclApi env self = (c, self', ev)"
    by (cases "GclApi env self") auto
  show ?case
    unfolding run_batches_Cons[OF g]
    using Cons.IH[of self'] GclApi_proj[OF g]
    by (simp split: option.splits)
qed

lemma ExecuteQuery_logged:
  "logged (fst (ExecuteQuery env self qfilter)) =
     [''Projects being queried: '' @ format_d (length (resolved env self))]"
  by (simp add: ExecuteQuery_trace resolve_events run_batches_logged)

lemma collect_project_ids_eq: "collect_project_ids ps = map scope_name (filter is_active ps)"
  by (induction ps) (simp_all add: is_active_def scope_name_def)

lemma resolved_search_all:
  "search_all self \<Longrightarrow> resolved env self = map scope_name (filter is_active (scopes env self))"
  by (simp add: resolved_def resolve_project_ids_def scopes_def ListProjects_def
      collect_project_ids_eq Let_def)

lemma resolved_single:
  "\<not> search_all self \<Longrightarrow> resolved env self = [''projects/'' @ project_id self]"
  by (simp add: resolved_def resolve_project_ids_def)

lemma served_prefix: "served f bs = take (length (served f bs)) bs"
  by (induction bs) simp_all

lemma served_all: "first_failure f bs = None \<Longrightarrow> served f bs = bs"
  by (induction bs) (simp_all split: option.splits)

lemma served_subset: "set (served f bs) \<subseteq> set bs"
  by (induction bs) auto

lemma batches_concat: "concat (batches ids) = ids"
  using py_range_concat[of ids 0] by (simp add: batches_def)

lemma batches_length: "length (batches ids) = (length ids + 49) div 50"
  by (simp add: batches_def py_range_length)

lemma batches_nth:
  "k < length (batches ids) \<Longrightarrow> batches ids ! k = take 50 (drop (50 * k) ids)"
  by (simp add: batches_def py_range_nth py_slice_def)

lemma batches_member:
  assumes "b \<in> set (batches ids)"
  shows "b \<noteq> []" and "length b \<le> 50" and "set b \<subseteq> set ids"
proof -
  from assms obtain x where x: "x \<in> set (py_range 0 (length ids) 50)" "b = take 50 (drop x ids)"
    by (auto simp: batches_def py_slice_def)
  from py_range_bound[OF x(1)] x(2) show "b \<noteq> []" by simp
  from x(2) show "length b \<le> 50" by simp
  from x(2) show "set b \<subseteq> set ids"
    by (metis set_take_subset set_drop_subset subset_trans)
qed

subsection \<open>The claims on batching\<close>

lemma ex_plain_resolved: "resolved ex_plain ex_log = replicate 51 ''projects/p''"
  by code_simp

lemma ex_plain_no_failure: "first_failure (api ex_plain ex_log) (bodies ex_plain ex_log ''f'') = None"
  by code_simp

text \<open>
  C1: \<^verbatim>\<open>ExecuteQuery\<close> cuts the resolved list of \<open>N\<close> scope identifiers into
  \<open>\<lceil>N / 50\<rceil>\<close> consecutive batches, none empty and none longer than 50: the \<open>k\<close>-th
  batch is the next 50 identifiers after the first \<open>50 k\<close>, and the batches put end to
  end are the list again. The requests it issues carry these batches in this order, all
  of them when no request fails.
\<close>

theorem ExecuteQuery_batches:
  "length (batches (resolved env self)) = (length (resolved env self) + 49) div 50
   \<and> (\<forall>b \<in> set (batches (resolved env self)). b \<noteq> [] \<and> length b \<le> 50)
   \<and> (\<forall>k < length (batches (resolved env self)).
         batches (resolved env self) ! k = take 50 (drop (50 * k) (resolved env self)))
   \<and> concat (batches (resolved env self)) = resolved env self
   \<and> map resourceNames (requests (fst (ExecuteQuery env self qfilter))) =
       take (length (requests (fst (ExecuteQuery env self qfilter)))) (batches (resolved env self))
   \<and> (first_failure (api env self) (bodies env self qfilter) = None \<longrightarrow>
       map resourceNames (requests (fst (ExecuteQuery env self qfilter))) =
         batches (resolved env self))"
proof -
  have names: "map resourceNames (bodies env self qfilter) = batches (resolved env self)"
    by (simp add: bodies_def mk_body_def comp_def)
  have "map resourceNames (served (api env self) (bodies env self qfilter)) =
          take (length (served (api env self) (bodies env self qfilter)))
            (map resourceNames (bodies env self qfilter))"
    by (metis served_prefix take_map)
  then have pre: "map resourceNames (requests (fst (ExecuteQuery env self qfilter))) =
       take (length (requests (fst (ExecuteQuery env self qfilter)))) (batches (resolved env self))"
    by (simp add: ExecuteQuery_requests names)
  have full: "first_failure (api env self) (bodies env self qfilter) = None \<longrightarrow>
       map resourceNames (requests (fst (ExecuteQuery env self qfilter))) =
         batches (resolved env self)"
    by (simp add: ExecuteQuery_requests served_all names)
  show ?thesis
    using pre full batches_member(1,2)[of _ "resolved env self"]
    by (simp add: batches_length batches_concat batches_nth)
qed

theorem ExecuteQuery_batches_witness:
  "length (resolved ex_plain ex_log) = 51
   \<and> length (batches (resolved ex_plain ex_log)) = 2
   \<and> batches (resolved ex_plain ex_log) ! 1 = [''projects/p'']
   \<and> [''projects/p''] \<in> set (batches (resolved ex_plain ex_log))
   \<and> concat (batches (resolved ex_plain ex_log)) = resolved ex_plain ex_log
   \<and> first_failure (api ex_plain ex_log) (bodies ex_plain ex_log ''f'') = None
   \<and> map resourceNames (requests (fst (ExecuteQuery ex_plain ex_log ''f''))) =
       batches (resolved ex_plain ex_log)"
proof -
  note t = ExecuteQuery_batches[of ex_plain ex_log "''f''"]
  have n: "length (resolved ex_plain ex_log) = 51"
    by (simp add: ex_plain_resolved)
  from t have "length (batches (resolved ex_plain ex_log)) = (length (resolved ex_plain ex_log) + 49) div 50"
    by blast
  with n have two: "length (batches (resolved ex_plain ex_log)) = 2"
    by simp
  then have "1 < length (batches (resolved ex_plain ex_log))"
    by simp
  with t have "batches (resolved ex_plain ex_log) ! 1 = take 50 (drop (50 * 1) (resolved ex_plain ex_log))"
    by blast
  then have second: "batches (resolved ex_plain ex_log) ! 1 = [''projects/p'']"
    by (simp add: ex_plain_resolved)
  from two have "batches (resolved ex_plain ex_log) ! 1 \<in> set (batches (resolved ex_plain ex_log))"
    by (intro nth_mem) simp
  with second have mem: "[''projects/p''] \<in> set (batches (resolved ex_plain ex_log))"
    by simp
  from t ex_plain_no_failure
  have "map resourceNames (requests (fst (ExecuteQuery ex_plain ex_log ''f''))) =
          batches (resolved ex_plain ex_log)"
    by blast
  with t n two second mem ex_plain_no_failure show ?thesis
    by blast
qed

subsection \<open>The claims on scopes, requests and entries\<close>

lemma GclApi_cong:
  assumes "CreateService env' = CreateService env"
    and "gcl_api_client s' = gcl_api_client s" and "key_file s' = key_file s"
  shows "fst (GclApi env' s') = fst (GclApi env s)"
    and "snd (snd (GclApi env' s')) = snd (snd (GclApi env s))"
    and "gcl_api_client (fst (snd (GclApi env' s'))) = gcl_api_client (fst (snd (GclApi env s)))"
    and "key_file (fst (snd (GclApi env' s'))) = key_file (fst (snd (GclApi env s)))"
  using assms by (simp_all add: GclApi_def Let_def split: option.splits)

lemma run_batches_cong:
  assumes "CreateService env' = CreateService env" and "ExecuteRequest env' = ExecuteRequest env"
  shows "gcl_api_client s' = gcl_api_client s \<Longrightarrow> key_file s' = key_file s \<Longrightarrow>
         fst (run_batches env' s' qfilter ids xs) = fst (run_batches env s qfilter ids xs)"
proof (induction xs arbitrary: s s')
  case Nil
  show ?case by simp
next
  case (Cons x xs)
  obtain c s1 ev where g: "GclApi env s = (c, s1, ev)"
    by (cases "GclApi env s") auto
  obtain c' s1' ev' where g': "GclApi env' s' = (c', s1', ev')"
    by (cases "GclApi env' s'") auto
  from GclApi_cong[OF assms(1) Cons.prems] g g'
  have eq: "c' = c" "ev' = ev" "gcl_api_client s1' = gcl_api_client s1" "key_file s1' = key_file s1"
    by simp_all
  have a: "api env' s' = api env s"
    by (rule ext) (simp add: api_def the_client_def assms Cons.prems split: option.splits)
  show ?case
    unfolding run_batches_Cons[OF g] run_batches_Cons[OF g']
    using Cons.IH[OF eq(3,4)] by (simp add: eq a split: option.splits)
qed

lemma format_d_0: "format_d 0 = ''0''"
  by code_simp

lemma py_range_empty: "py_range x 0 step = []"
  by (subst py_range.simps) simp

lemma ex_plain_scopes: "scopes ex_plain ex_log = replicate 51 ex_active @ [ex_deleted]"
  by code_simp

lemma ex_plain_active: "filter is_active (scopes ex_plain ex_log) = replicate 51 ex_active"
  by code_simp

lemma ex_deleted_inactive: "\<not> is_active ex_deleted"
  by code_simp

lemma ex_log_fresh: "search_all ex_log" "projects ex_log = []"
  by code_simp+

text \<open>
  C2: in the mode of all scopes, the resource names of every request come from
  discovered scopes whose lifecycle state is exactly \<^verbatim>\<open>ACTIVE\<close>; the one line logged
  counts those scopes only, the sequence raises no error but that of a backing call, and
  the events of the query are those of a discovery that never returned the other scopes.
\<close>

theorem inactive_scopes_excluded:
  assumes "search_all self"
  shows "(\<forall>b \<in> set (requests (fst (ExecuteQuery env self qfilter))).
            set (resourceNames b) \<subseteq> scope_name ` {p \<in> set (scopes env self). is_active p})
         \<and> resolved env self = map scope_name (filter is_active (scopes env self))
         \<and> logged (fst (ExecuteQuery env self qfilter)) =
             [''Projects being queried: '' @ format_d (length (filter is_active (scopes env self)))]
         \<and> raised (fst (ExecuteQuery env self qfilter)) =
             (case first_failure (api env self) (bodies env self qfilter) of
                None \<Rightarrow> [] | Some e \<Rightarrow> [e])
         \<and> (projects self = [] \<longrightarrow>
              fst (ExecuteQuery env self qfilter) =
              fst (ExecuteQuery
                     (env\<lparr>Discovery := \<lambda>v k. Discovered (filter is_active (GetProjects env v k))\<rparr>)
                     self qfilter))"
proof -
  let ?T = "fst (ExecuteQuery env self qfilter)"
  let ?env' = "env\<lparr>Discovery := \<lambda>v k. Discovered (filter is_active (GetProjects env v k))\<rparr>"
  have r: "resolved env self = map scope_name (filter is_active (scopes env self))"
    by (rule resolved_search_all[OF assms])
  have sub: "\<forall>b \<in> set (requests ?T).
               set (resourceNames b) \<subseteq> scope_name ` {p \<in> set (scopes env self). is_active p}"
  proof
    fix b assume "b \<in> set (requests ?T)"
    then have "b \<in> set (bodies env self qfilter)"
      using served_subset by (auto simp: ExecuteQuery_requests)
    then have "resourceNames b \<in> set (batches (resolved env self))"
      by (auto simp: bodies_def mk_body_def)
    from batches_member(3)[OF this]
    show "set (resourceNames b) \<subseteq> scope_name ` {p \<in> set (scopes env self). is_active p}"
      by (auto simp: r)
  qed
  have same: "fst (ExecuteQuery env self qfilter) = fst (ExecuteQuery ?env' self qfilter)"
    if fresh: "projects self = []"
  proof -
    have gp: "GetProjects ?env' LOGGING_API_VERSION (key_file self) =
                filter is_active (GetProjects env LOGGING_API_VERSION (key_file self))"
      by (simp add: GetProjects_def)
    have r': "resolved ?env' self = resolved env self"
      using assms fresh by (simp add: resolved_search_all scopes_def gp)
    have "fst (run_batches ?env' (fst (snd (resolve_project_ids ?env' self))) qfilter
                 (resolved env self) (py_range 0 (length (resolved env self)) 50)) =
          fst (run_batches env (fst (snd (resolve_project_ids env self))) qfilter
                 (resolved env self) (py_range 0 (length (resolved env self)) 50))"
      by (rule run_batches_cong) (simp_all add: resolve_state ListProjects_def)
    then show ?thesis
      by (simp add: ExecuteQuery_trace r' resolve_events)
  qed
  show ?thesis
    using sub r same by (simp add: ExecuteQuery_logged ExecuteQuery_raised)
qed

theorem inactive_scopes_excluded_witness:
  "search_all ex_log
   \<and> ex_deleted \<in> set (scopes ex_plain ex_log) \<and> \<not> is_active ex_deleted
   \<and> resolved ex_plain ex_log = replicate 51 ''projects/p''
   \<and> logged (fst (ExecuteQuery ex_plain ex_log ''f'')) = [''Projects being queried: 51'']
   \<and> raised (fst (ExecuteQuery ex_plain ex_log ''f'')) = []"
proof -
  note t = inactive_scopes_excluded[OF ex_log_fresh(1), of ex_plain "''f''"]
  have a: "length (filter is_active (scopes ex_plain ex_log)) = 51"
    by (simp add: ex_plain_active)
  have f: "format_d 51 = ''51''"
    by code_simp
  from t have "logged (fst (ExecuteQuery ex_plain ex_log ''f'')) =
      [''Projects being queried: '' @ format_d (length (filter is_active (scopes ex_plain ex_log)))]"
    by blast
  then have l: "logged (fst (ExecuteQuery ex_plain ex_log ''f'')) = [''Projects being queried: 51'']"
    by (simp add: a f)
  from t have "raised (fst (ExecuteQuery ex_plain ex_log ''f'')) =
             (case first_failure (api ex_plain ex_log) (bodies ex_plain ex_log ''f'') of
                None \<Rightarrow> [] | Some e \<Rightarrow> [e])"
    by blast
  then have r: "raised (fst (ExecuteQuery ex_plain ex_log ''f'')) = []"
    by (simp add: ex_plain_no_failure)
  show ?thesis
    using l r ex_log_fresh(1) ex_deleted_inactive
    by (simp add: ex_plain_scopes ex_plain_resolved)
qed

subsection \<open>The claims on failures and on the entries delivered\<close>

lemma ex_failing_entries:
  "concat (map (\<lambda>b. response_entries (api ex_failing ex_log b))
     (served (api ex_failing ex_log) (bodies ex_failing ex_log ''f''))) = [1, 2, 3, 4, 5]"
  by code_simp

lemma ex_failing_failure:
  "first_failure (api ex_failing ex_log) (bodies ex_failing ex_log ''f'') = Some RuntimeError"
  by code_simp

lemma ex_failing_served:
  "map (\<lambda>b. length (resourceNames b)) (served (api ex_failing ex_log) (bodies ex_failing ex_log ''f'')) = [50, 1]"
  by code_simp

lemma ex_failing_bodies:
  "map (\<lambda>b. length (resourceNames b)) (bodies ex_failing ex_log ''f'') = [50, 1]"
  by code_simp

lemma raised_mem: "e \<in> set (raised t) \<Longrightarrow> Raise e \<in> set t"
  by (induction t rule: raised.induct) auto

lemma first_failure_served:
  "first_failure f bs = Some e \<Longrightarrow>
     served f bs \<noteq> [] \<and> failure (f (last (served f bs))) = Some e
     \<and> (\<forall>b \<in> set (butlast (served f bs)). failure (f b) = None)"
  by (induction bs) (auto split: option.splits)

text \<open>
  C4: nothing is retried. The requests issued are the bodies of the batches in order,
  each once, up to the first one the backing call fails on; the consumer sees the
  entries of these requests, page after page, and then the error of that call, which
  is the last event of the sequence.
\<close>

theorem failure_propagates:
  "requests (fst (ExecuteQuery env self qfilter)) = served (api env self) (bodies env self qfilter)
   \<and> served (api env self) (bodies env self qfilter) =
       take (length (served (api env self) (bodies env self qfilter))) (bodies env self qfilter)
   \<and> observed (fst (ExecuteQuery env self qfilter)) =
       map Yield (concat (map (\<lambda>b. response_entries (api env self b))
                    (requests (fst (ExecuteQuery env self qfilter)))))
       @ (case first_failure (api env self) (bodies env self qfilter) of
            None \<Rightarrow> [] | Some e \<Rightarrow> [Raise e])
   \<and> (\<forall>e. first_failure (api env self) (bodies env self qfilter) = Some e \<longrightarrow>
         failure (api env self (last (requests (fst (ExecuteQuery env self qfilter))))) = Some e
         \<and> (\<exists>t. fst (ExecuteQuery env self qfilter) = t @ [Raise e] \<and> raised t = []))"
proof -
  let ?T = "fst (ExecuteQuery env self qfilter)"
  have last: "\<exists>t. ?T = t @ [Raise e] \<and> raised t = []"
    if ff: "first_failure (api env self) (bodies env self qfilter) = Some e" for e
  proof -
    let ?R = "fst (run_batches env (fst (snd (resolve_project_ids env self))) qfilter
                 (resolved env self) (py_range 0 (length (resolved env self)) 50))"
    have "raised ?R = [e]"
      using ff by (simp add: run_batches_raised api_resolve bodies_eq)
    then have "Raise e \<in> set ?R"
      by (intro raised_mem) simp
    from run_batches_Raise_last[OF this] obtain t where
      t: "?R = t @ [Raise e]" "raised t = []" by blast
    let ?pre = "snd (snd (resolve_project_ids env self))
                @ [Log (''Projects being queried: '' @ format_d (length (resolved env self)))]"
    have "?T = (?pre @ t) @ [Raise e]"
      by (simp add: ExecuteQuery_trace t(1))
    moreover have "raised (?pre @ t) = []"
      by (simp add: resolve_events t(2))
    ultimately show ?thesis by blast
  qed
  show ?thesis
    using last first_failure_served[of "api env self" "bodies env self qfilter"]
      served_prefix[of "api env self" "bodies env self qfilter"]
    by (simp add: ExecuteQuery_requests ExecuteQuery_observed)
qed

theorem failure_propagates_witness:
  "map (\<lambda>b. length (resourceNames b)) (bodies ex_failing ex_log ''f'') = [50, 1]
   \<and> first_failure (api ex_failing ex_log) (bodies ex_failing ex_log ''f'') = Some RuntimeError
   \<and> map (\<lambda>b. length (resourceNames b)) (requests (fst (ExecuteQuery ex_failing ex_log ''f''))) = [50, 1]
   \<and> observed (fst (ExecuteQuery ex_failing ex_log ''f'')) =
       [Yield 1, Yield 2, Yield 3, Yield 4, Yield 5, Raise RuntimeError]
   \<and> (\<exists>t. fst (ExecuteQuery ex_failing ex_log ''f'') = t @ [Raise RuntimeError] \<and> raised t = [])"
proof -
  note t = failure_propagates[of ex_failing ex_log "''f''"]
  from t have rq: "requests (fst (ExecuteQuery ex_failing ex_log ''f'')) =
      served (api ex_failing ex_log) (bodies ex_failing ex_log ''f'')"
    by blast
  from t have "observed (fst (ExecuteQuery ex_failing ex_log ''f'')) =
       map Yield (concat (map (\<lambda>b. response_entries (api ex_failing ex_log b))
                    (requests (fst (ExecuteQuery ex_failing ex_log ''f'')))))
       @ (case first_failure (api ex_failing ex_log) (bodies ex_failing ex_log ''f'') of
            None \<Rightarrow> [] | Some e \<Rightarrow> [Raise e])"
    by blast
  then have ob: "observed (fst (ExecuteQuery ex_failing ex_log ''f'')) =
       [Yield 1, Yield 2, Yield 3, Yield 4, Yield 5, Raise RuntimeError]"
    by (simp add: rq ex_failing_entries ex_failing_failure)
  from t ex_failing_failure
  have "\<exists>t. fst (ExecuteQuery ex_failing ex_log ''f'') = t @ [Raise RuntimeError] \<and> raised t = []"
    by blast
  with ob show ?thesis
    by (simp add: rq ex_failing_served ex_failing_bodies ex_failing_failure)
qed


lemma ex_plain_bodies:
  "bodies ex_plain ex_log ''f'' =
     [mk_body ''f'' (replicate 50 ''projects/p''), mk_body ''f'' [''projects/p'']]"
  by code_simp



lemma batches_single: "batches [x] = [[x]]"
  by (simp add: batches_def py_slice_def py_range.simps[of 0] py_range.simps[of 50])

lemma batches_nonempty: "ids \<noteq> [] \<Longrightarrow> batches ids \<noteq> []"
  by (cases ids) (simp_all add: batches_def py_range.simps[of 0])

lemma served_nonempty: "bs \<noteq> [] \<Longrightarrow> served f bs \<noteq> []"
  by (cases bs) simp_all

lemma ex_plain_batches:
  "batches (replicate 51 ''projects/p'') = [replicate 50 ''projects/p'', [''projects/p'']]"
  by code_simp

lemma ex_single_mode: "\<not> search_all ex_single" "project_id ex_single = ''p0''"
  by code_simp+

text \<open>
  C6: the requests issued are, batch after batch, the bodies made of the resource names of
  the batch, of the filter of the caller as it was given and of the order
  \<^verbatim>\<open>timestamp desc\<close>, and of nothing else, for the batches up to the first one the
  backing call fails on: for all the batches when no call fails, for the first batch at
  least when there is a scope. A batch holds at most 50 names, each of the form
  \<^verbatim>\<open>projects/<id>\<close>: the name of the configured project, which makes the one
  request of a query of a single project, or in the mode of all scopes those of the
  active discovered projects.
\<close>

theorem request_body_shape:
  "requests (fst (ExecuteQuery env self qfilter)) =
     served (api env self)
       (map (\<lambda>ns. \<lparr>resourceNames = ns, filter_field = qfilter, orderBy = ''timestamp desc''\<rparr>)
          (batches (resolved env self)))
   \<and> requests (fst (ExecuteQuery env self qfilter)) =
       map (\<lambda>ns. \<lparr>resourceNames = ns, filter_field = qfilter, orderBy = ''timestamp desc''\<rparr>)
         (take (length (requests (fst (ExecuteQuery env self qfilter)))) (batches (resolved env self)))
   \<and> (resolved env self \<noteq> [] \<longrightarrow>
        hd (requests (fst (ExecuteQuery env self qfilter))) =
          \<lparr>resourceNames = take 50 (resolved env self), filter_field = qfilter,
           orderBy = ''timestamp desc''\<rparr>
        \<and> requests (fst (ExecuteQuery env self qfilter)) \<noteq> [])
   \<and> (first_failure (api env self) (bodies env self qfilter) = None \<longrightarrow>
        requests (fst (ExecuteQuery env self qfilter)) =
          map (\<lambda>ns. \<lparr>resourceNames = ns, filter_field = qfilter, orderBy = ''timestamp desc''\<rparr>)
            (batches (resolved env self)))
   \<and> (\<not> search_all self \<longrightarrow>
        requests (fst (ExecuteQuery env self qfilter)) =
          [\<lparr>resourceNames = [''projects/'' @ project_id self], filter_field = qfilter,
            orderBy = ''timestamp desc''\<rparr>])
   \<and> (\<forall>b \<in> set (requests (fst (ExecuteQuery env self qfilter))).
      b = \<lparr>resourceNames = resourceNames b, filter_field = qfilter, orderBy = ''timestamp desc''\<rparr>
      \<and> resourceNames b \<in> set (batches (resolved env self))
      \<and> resourceNames b \<noteq> [] \<and> length (resourceNames b) \<le> 50
      \<and> (\<forall>n \<in> set (resourceNames b). \<exists>i. n = ''projects/'' @ i))
   \<and> (\<not> search_all self \<longrightarrow> resolved env self = [''projects/'' @ project_id self])
   \<and> (search_all self \<longrightarrow>
        resolved env self =
          map (\<lambda>p. ''projects/'' @ format_value (dict_get p ''projectId''))
            (filter is_active (scopes env self)))"
proof -
  let ?T = "fst (ExecuteQuery env self qfilter)"
  let ?mk = "\<lambda>ns. \<lparr>resourceNames = ns, filter_field = qfilter, orderBy = ''timestamp desc''\<rparr>"
  have bd: "bodies env self qfilter = map ?mk (batches (resolved env self))"
    by (simp add: bodies_def mk_body_def[abs_def])
  have c1: "requests ?T = served (api env self) (map ?mk (batches (resolved env self)))"
    by (simp add: ExecuteQuery_requests bd)
  have c2: "requests ?T = map ?mk (take (length (requests ?T)) (batches (resolved env self)))"
    using served_prefix[of "api env self" "bodies env self qfilter"]
    by (simp add: ExecuteQuery_requests bd take_map)
  have c3: "hd (requests ?T) = ?mk (take 50 (resolved env self)) \<and> requests ?T \<noteq> []"
    if ne: "resolved env self \<noteq> []"
  proof -
    from batches_nonempty[OF ne] obtain b bs where bs: "batches (resolved env self) = b # bs"
      by (cases "batches (resolved env self)") auto
    then have "0 < length (batches (resolved env self))" by simp
    from batches_nth[OF this] bs have "b = take 50 (resolved env self)" by simp
    with bs show ?thesis by (simp add: c1)
  qed
  have c4: "requests ?T = map ?mk (batches (resolved env self))"
    if "first_failure (api env self) (bodies env self qfilter) = None"
    using that by (simp add: ExecuteQuery_requests served_all bd[symmetric])
  have c5: "requests ?T = [?mk [''projects/'' @ project_id self]]" if "\<not> search_all self"
    using that by (simp add: c1 resolved_single batches_single)
  have names: "\<exists>i. n = ''projects/'' @ i" if "n \<in> set (resolved env self)" for n
  proof (cases "search_all self")
    case True
    with that show ?thesis
      by (auto simp: resolved_search_all scope_name_def)
  next
    case False
    with that show ?thesis
      by (simp add: resolved_single)
  qed
  have c6: "b = \<lparr>resourceNames = resourceNames b, filter_field = qfilter, orderBy = ''timestamp desc''\<rparr>
      \<and> resourceNames b \<in> set (batches (resolved env self))
      \<and> resourceNames b \<noteq> [] \<and> length (resourceNames b) \<le> 50
      \<and> (\<forall>n \<in> set (resourceNames b). \<exists>i. n = ''projects/'' @ i)"
    if "b \<in> set (requests ?T)" for b
  proof -
    from that have "b \<in> set (bodies env self qfilter)"
      using served_subset by (auto simp: ExecuteQuery_requests)
    then obtain ns where ns: "ns \<in> set (batches (resolved env self))" "b = mk_body qfilter ns"
      by (auto simp: bodies_def)
    from batches_member[OF ns(1)] names ns(2) ns(1) show ?thesis
      by (auto simp: mk_body_def)
  qed
  have c7: "\<not> search_all self \<longrightarrow> resolved env self = [''projects/'' @ project_id self]"
    by (simp add: resolved_single)
  have c8: "search_all self \<longrightarrow>
        resolved env self =
          map (\<lambda>p. ''projects/'' @ format_value (dict_get p ''projectId''))
            (filter is_active (scopes env self))"
    by (simp add: resolved_search_all scope_name_def[abs_def])
  from c1 c2 c3 c4 c5 c6 c7 c8 show ?thesis
    by blast
qed

theorem request_body_shape_witness:
  "first_failure (api ex_plain ex_log) (bodies ex_plain ex_log ''f'') = None
   \<and> requests (fst (ExecuteQuery ex_plain ex_log ''f'')) =
     [\<lparr>resourceNames = replicate 50 ''projects/p'', filter_field = ''f'', orderBy = ''timestamp desc''\<rparr>,
      \<lparr>resourceNames = [''projects/p''], filter_field = ''f'', orderBy = ''timestamp desc''\<rparr>]
   \<and> search_all ex_log
   \<and> resolved ex_plain ex_log =
       map (\<lambda>p. ''projects/'' @ format_value (dict_get p ''projectId''))
         (filter is_active (scopes ex_plain ex_log))
   \<and> \<not> search_all ex_single
   \<and> requests (fst (ExecuteQuery ex_failing ex_single ''f'')) =
       [\<lparr>resourceNames = [''projects/p0''], filter_field = ''f'', orderBy = ''timestamp desc''\<rparr>]"
proof -
  note t = request_body_shape[of ex_plain ex_log "''f''"]
  note u = request_body_shape[of ex_failing ex_single "''f''"]
  from t ex_plain_no_failure
  have "requests (fst (ExecuteQuery ex_plain ex_log ''f'')) =
          map (\<lambda>ns. \<lparr>resourceNames = ns, filter_field = ''f'', orderBy = ''timestamp desc''\<rparr>)
            (batches (resolved ex_plain ex_log))"
    by blast
  then have a: "requests (fst (ExecuteQuery ex_plain ex_log ''f'')) =
     [\<lparr>resourceNames = replicate 50 ''projects/p'', filter_field = ''f'', orderBy = ''timestamp desc''\<rparr>,
      \<lparr>resourceNames = [''projects/p''], filter_field = ''f'', orderBy = ''timestamp desc''\<rparr>]"
    by (simp add: ex_plain_resolved ex_plain_batches)
  from t ex_log_fresh(1)
  have b: "resolved ex_plain ex_log =
       map (\<lambda>p. ''projects/'' @ format_value (dict_get p ''projectId''))
         (filter is_active (scopes ex_plain ex_log))"
    by blast
  from u ex_single_mode(1)
  have "requests (fst (ExecuteQuery ex_failing ex_single ''f'')) =
          [\<lparr>resourceNames = [''projects/'' @ project_id ex_single], filter_field = ''f'',
            orderBy = ''timestamp desc''\<rparr>]"
    by blast
  then have c: "requests (fst (ExecuteQuery ex_failing ex_single ''f'')) =
       [\<lparr>resourceNames = [''projects/p0''], filter_field = ''f'', orderBy = ''timestamp desc''\<rparr>]"
    by (simp add: ex_single_mode(2))
  from a b c ex_plain_no_failure ex_log_fresh(1) ex_single_mode(1) show ?thesis
    by blast
qed

text \<open>
  C9: in the mode of all scopes, a discovery that fails or finds no scope gives an empty
  sequence: the discovery and the line that counts zero projects, then no request, no
  entry and no error.
\<close>

theorem empty_discovery:
  assumes "search_all self" and "projects self = []"
    and "(\<exists>e. Discovery env LOGGING_API_VERSION (key_file self) = DiscoveryFailed e)
         \<or> Discovery env LOGGING_API_VERSION (key_file self) = Discovered []"
  shows "fst (ExecuteQuery env self qfilter) = [Discover, Log ''Projects being queried: 0'']
         \<and> requests (fst (ExecuteQuery env self qfilter)) = []
         \<and> yielded (fst (ExecuteQuery env self qfilter)) = []
         \<and> raised (fst (ExecuteQuery env self qfilter)) = []
         \<and> consume n (fst (ExecuteQuery env self qfilter)) =
             (if n = 0 then [] else [Discover, Log ''Projects being queried: 0''])"
proof -
  from assms(3) have "GetProjects env LOGGING_API_VERSION (key_file self) = []"
    by (auto simp: GetProjects_def)
  with assms(1,2) have "resolved env self = []"
    by (simp add: resolved_search_all scopes_def)
  then have T: "fst (ExecuteQuery env self qfilter) = [Discover, Log ''Projects being queried: 0'']"
    using assms(1,2) by (simp add: ExecuteQuery_trace resolve_events py_range_empty format_d_0)
  show ?thesis
    unfolding T by (cases n) simp_all
qed

theorem empty_discovery_witness:
  "search_all ex_log \<and> projects ex_log = []
   \<and> Discovery ex_undiscovered LOGGING_API_VERSION (key_file ex_log) = DiscoveryFailed RuntimeError
   \<and> fst (ExecuteQuery ex_undiscovered ex_log ''f'') = [Discover, Log ''Projects being queried: 0'']
   \<and> yielded (fst (ExecuteQuery ex_undiscovered ex_log ''f'')) = []
   \<and> raised (fst (ExecuteQuery ex_undiscovered ex_log ''f'')) = []"
proof -
  have d: "Discovery ex_undiscovered LOGGING_API_VERSION (key_file ex_log) = DiscoveryFailed RuntimeError"
    by (simp add: ex_undiscovered_def)
  then have "(\<exists>e. Discovery ex_undiscovered LOGGING_API_VERSION (key_file ex_log) = DiscoveryFailed e)
         \<or> Discovery ex_undiscovered LOGGING_API_VERSION (key_file ex_log) = Discovered []"
    by blast
  from empty_discovery[OF ex_log_fresh this, of "''f''" 0] d ex_log_fresh show ?thesis
    by simp
qed

subsection \<open>The claim on laziness\<close>

lemma consume_quiet:
  "yielded s = [] \<Longrightarrow> raised s = [] \<Longrightarrow> consume (Suc k) (s @ t) = s @ consume (Suc k) t"
  by (induction s rule: yielded.induct) simp_all

lemma consume_Yields:
  "consume k (map Yield es @ t) = map Yield (take k es) @ consume (k - length es) t"
  by (induction es arbitrary: k) (case_tac k; simp)+

lemma consume_prefix: "\<exists>r. t = consume k t @ r"
proof (induction k t rule: consume.induct)
qed auto

lemma run_batches_consume:
  "requests (consume k (fst (run_batches env self qfilter ids xs))) =
     needed k (api env self) (map (\<lambda>x. mk_body qfilter (py_slice ids x (x + 50))) xs)"
proof (induction xs arbitrary: self k)
  case Nil
  show ?case by (cases k) simp_all
next
  case (Cons x xs)
  obtain c self' ev where g: "GclApi env self = (c, self', ev)"
    by (cases "GclApi env self") auto
  show ?case
  proof (cases k)
    case 0
    then show ?thesis by simp
  next
    case (Suc j)
    let ?b = "mk_body qfilter (py_slice ids x (x + 50))"
    let ?es = "response_entries (api env self ?b)"
    let ?rest = "case failure (api env self ?b) of
                   Some e \<Rightarrow> [Raise e]
                 | None \<Rightarrow> fst (run_batches env self' qfilter ids xs)"
    have q: "yielded (ev @ [Request ?b]) = []" "raised (ev @ [Request ?b]) = []"
      using GclApi_proj[OF g] by simp_all
    have "fst (run_batches env self qfilter ids (x # xs)) =
            (ev @ [Request ?b]) @ map Yield ?es @ ?rest"
      unfolding run_batches_Cons[OF g] by (simp add: yield_pages_eq response_entries_def)
    then have "consume (Suc j) (fst (run_batches env self qfilter ids (x # xs))) =
            (ev @ [Request ?b]) @ map Yield (take (Suc j) ?es) @ consume (Suc j - length ?es) ?rest"
      by (simp only: consume_quiet[OF q] consume_Yields)
    then have rq: "requests (consume (Suc j) (fst (run_batches env self qfilter ids (x # xs)))) =
            ?b # requests (consume (Suc j - length ?es) ?rest)"
      using GclApi_proj[OF g] by simp
    show ?thesis
    proof (cases "Suc j \<le> length ?es")
      case True
      with rq Suc show ?thesis by simp
    next
      case False
      then obtain i where i: "Suc j - length ?es = Suc i"
        by (cases "Suc j - length ?es") simp_all
      show ?thesis
      proof (cases "failure (api env self ?b)")
        case None
        with rq Suc False Cons.IH[of "Suc j - length ?es" self'] show ?thesis
          by (simp add: api_GclApi[OF g])
      next
        case (Some e)
        with rq Suc False i show ?thesis by simp
      qed
    qed
  qed
qed

lemma ExecuteQuery_consume:
  "requests (consume k (fst (ExecuteQuery env self qfilter))) =
     needed k (api env self) (bodies env self qfilter)"
proof (cases k)
  case 0
  then show ?thesis by simp
next
  case (Suc j)
  let ?pre = "snd (snd (resolve_project_ids env self))
              @ [Log (''Projects being queried: '' @ format_d (length (resolved env self)))]"
  have q: "yielded ?pre = []" "raised ?pre = []" "requests ?pre = []"
    by (simp_all add: resolve_events)
  have "fst (ExecuteQuery env self qfilter) =
          ?pre @ fst (run_batches env (fst (snd (resolve_project_ids env self))) qfilter
                        (resolved env self) (py_range 0 (length (resolved env self)) 50))"
    by (simp add: ExecuteQuery_trace)
  then have "consume (Suc j) (fst (ExecuteQuery env self qfilter)) =
          ?pre @ consume (Suc j) (fst (run_batches env (fst (snd (resolve_project_ids env self)))
                        qfilter (resolved env self) (py_range 0 (length (resolved env self)) 50)))"
    by (simp only: consume_quiet[OF q(1,2)])
  then show ?thesis
    using q(3) Suc by (simp add: run_batches_consume api_resolve bodies_eq)
qed

lemma ex_quiet_needed:
  "map (\<lambda>b. length (resourceNames b)) (needed 1 (api ex_quiet ex_log) (bodies ex_quiet ex_log ''f'')) = [50, 1]"
  by code_simp

lemma ex_failing_first:
  "bodies ex_failing ex_log ''f'' =
     [mk_body ''f'' (replicate 50 ''projects/p''), mk_body ''f'' [''projects/p'']]"
  "response_entries (api ex_failing ex_log (mk_body ''f'' (replicate 50 ''projects/p''))) = [1, 2, 3, 4, 5]"
  by code_simp+

text \<open>
  C3, as the spec states it, fails: the two batches of this query are both requested
  before the first element is delivered, since the response to the first batch holds no
  entry.
\<close>

theorem first_element_two_requests:
  "length (bodies ex_quiet ex_log ''f'') = 2
   \<and> length (yielded (consume 1 (fst (ExecuteQuery ex_quiet ex_log ''f'')))) = 1
   \<and> \<not> length (requests (consume 1 (fst (ExecuteQuery ex_quiet ex_log ''f'')))) \<le> 1"
  by code_simp

text \<open>
  C3, amended: the events of a consumer who asks for \<open>k\<close> elements are a prefix of the
  events of the whole query, and its requests are those of the leading batches up to the
  one whose response holds the \<open>k\<close>-th entry (or fails); no later batch is requested. In
  particular, when the response to the first batch holds at least \<open>k\<close> entries, asking
  for \<open>k\<close> elements issues the request of the first batch only, however many batches
  there are.
\<close>

theorem ExecuteQuery_lazy:
  "requests (consume k (fst (ExecuteQuery env self qfilter))) =
     needed k (api env self) (bodies env self qfilter)
   \<and> (\<exists>r. fst (ExecuteQuery env self qfilter) = consume k (fst (ExecuteQuery env self qfilter)) @ r)
   \<and> consume 0 (fst (ExecuteQuery env self qfilter)) = []
   \<and> (\<forall>b bs. bodies env self qfilter = b # bs \<and> 0 < k
              \<and> k \<le> length (response_entries (api env self b)) \<longrightarrow>
        requests (consume k (fst (ExecuteQuery env self qfilter))) = [b])"
proof -
  have "needed k (api env self) (b # bs) = [b]"
    if "0 < k" "k \<le> length (response_entries (api env self b))" for b bs
    using that by (cases k) simp_all
  then show ?thesis
    using consume_prefix[of "fst (ExecuteQuery env self qfilter)" k]
    by (auto simp: ExecuteQuery_consume)
qed

theorem ExecuteQuery_lazy_witness:
  "bodies ex_failing ex_log ''f'' =
     [mk_body ''f'' (replicate 50 ''projects/p''), mk_body ''f'' [''projects/p'']]
   \<and> (0::nat) < 1
   \<and> 1 \<le> length (response_entries (api ex_failing ex_log (mk_body ''f'' (replicate 50 ''projects/p''))))
   \<and> requests (consume 1 (fst (ExecuteQuery ex_failing ex_log ''f''))) =
       [mk_body ''f'' (replicate 50 ''projects/p'')]"
proof -
  note t = ExecuteQuery_lazy[of 1 ex_failing ex_log "''f''"]
  have h: "bodies ex_failing ex_log ''f'' =
          mk_body ''f'' (replicate 50 ''projects/p'') # [mk_body ''f'' [''projects/p'']]
        \<and> (0::nat) < 1
        \<and> 1 \<le> length (response_entries (api ex_failing ex_log (mk_body ''f'' (replicate 50 ''projects/p''))))"
    by (simp add: ex_failing_first)
  with t have "requests (consume 1 (fst (ExecuteQuery ex_failing ex_log ''f''))) =
       [mk_body ''f'' (replicate 50 ''projects/p'')]"
    by blast
  with h show ?thesis by simp
qed

section \<open>Properties of the command line\<close>


lemma ex_args_qfilter:
  "assemble_qfilter ex_args =
     ''timestamp>='' @ [dq] @ ''2021-01-01T00:00:00Z'' @ [dq] @ '' AND timestamp<='' @ [dq]
     @ ''2021-01-02T00:00:00Z'' @ [dq] @ '' AND severity=ERROR''"
  by code_simp

text \<open>
  C7: the filter is made of the pieces for the start, the end and the filter of the
  caller, in this order, each present when its option is given, with \<^verbatim>\<open>AND\<close> between
  the two bounds when both are given and before the filter of the caller when a bound
  is given; for the start, the end and the filter of the example it is the text of the
  spec, blanks included.
\<close>

theorem filter_assembly:
  "assemble_qfilter a =
     (if truthy (arg_start a)
      then ''timestamp>='' @ [dq] @ text_of (arg_start a) @ [dq] @ '' '' else [])
     @ (if truthy (arg_start a) \<and> truthy (arg_end a) then ''AND '' else [])
     @ (if truthy (arg_end a)
        then ''timestamp<='' @ [dq] @ text_of (arg_end a) @ [dq] @ '' '' else [])
     @ (if truthy (arg_filter a) \<and> (truthy (arg_start a) \<or> truthy (arg_end a)) then ''AND '' else [])
     @ (if truthy (arg_filter a) then text_of (arg_filter a) else [])
   \<and> assemble_qfilter
       \<lparr>arg_project = p, arg_key_file = k, arg_search_all = sa,
        arg_start = Some ''2021-01-01T00:00:00Z'', arg_end = Some ''2021-01-02T00:00:00Z'',
        arg_filter = Some ''severity=ERROR''\<rparr> =
     ''timestamp>='' @ [dq] @ ''2021-01-01T00:00:00Z'' @ [dq] @ '' AND timestamp<='' @ [dq]
     @ ''2021-01-02T00:00:00Z'' @ [dq] @ '' AND severity=ERROR''"
  by (simp add: assemble_qfilter_def Let_def truthy_def text_of_def)

lemmas strptime_eval =
  strptime_def format_regex_match_def re_m_def re_d_def re_H_def re_M_def re_S_def
  in_range_def is_char_def is_digit_def decimal_def digit_value_def py_int_def sre_lower_def
  days_in_month_def is_leap_def Let_def

lemma ex_bounds_parse:
  "strptime zeros ''2021-01-01T00:00:00Z'' = Inr (2021, 1, 1, 0, 0, 0)"
  "strptime zeros ''2021-01-02T00:00:00Z'' = Inr (2021, 1, 2, 0, 0, 0)"
  by (simp_all add: strptime_eval)

lemma ex_args_valid: "validate zeros ex_args = Inr ()"
  by (simp add: validate_def ex_args_def truthy_def text_of_def ex_bounds_parse)

lemma persist_appends_nothing:
  "appended (snd (persist filename t)) = []"
  by (induction filename t rule: persist.induct) (auto split: prod.splits)

text \<open>
  C10 is not what the code does. \<^verbatim>\<open>QueryLogs\<close> never writes an entry: when the bounds
  pass the validation, the name of the file cannot be made, since the format \<^verbatim>\<open>{0:s}\<close>
  is applied to the float \<^verbatim>\<open>timestamp()\<close> returns, and the command ends with
  \<^verbatim>\<open>ValueError\<close> before the query is started; and the loop that follows would dump
  the unbound name \<^verbatim>\<open>line\<close>, not the entry, so that no entry is appended by it either.
\<close>

theorem QueryLogs_writes_no_entry:
  "fst (QueryLogs zeros env a now) =
     (case validate zeros a of Inl err \<Rightarrow> SysExit err | Inr ok \<Rightarrow> Raised ValueError)
   \<and> appended (snd (QueryLogs zeros env a now)) = []
   \<and> network_calls (snd (QueryLogs zeros env a now)) = []
   \<and> appended (snd (persist filename t)) = []
   \<and> fst (persist filename (Yield result # t)) = Some NameError
   \<and> QueryLogs ex_zeros ex_plain ex_args (1, 0) = (Raised ValueError, [])"
proof -
  have "QueryLogs ex_zeros ex_plain ex_args (1, 0) = (Raised ValueError, [])"
    by (simp add: QueryLogs_def ex_args_valid format_s_def Let_def) (simp add: ex_args_def)
  then show ?thesis
    by (simp add: QueryLogs_def format_s_def Let_def persist_appends_nothing split: sum.splits)
qed

subsection \<open>The validation of the bounds\<close>




































end
